theory Spec2Isabelle
  imports Complex_Main "HOL-Library.AList" "HOL-Library.Char_ord" "HOL-Library.List_Lexorder"
    "HOL-Library.Product_Lexorder" "HOL-Library.Log_Nat"
begin

section \<open>Route navigator: the model of bestpath.py\<close>

text \<open>
  The program computes with Python floats, which are IEEE 754 binary64 values. A float is
  modelled as the number it denotes, or one of \<open>inf\<close>, \<open>-inf\<close> and \<open>nan\<close>; every operation
  rounds its exact result to the nearest float, ties to even, and overflows to an
  infinity, as the machine does.

  Strings are Python strings over the characters below U+0100, here \<open>string\<close>; their
  order (used by the priority queue of Prim's algorithm and by the sort of the known
  dates) is the lexicographic order of the characters.

  A Python \<open>dict\<close> keeps its keys in insertion order, and the program iterates over its
  dictionaries, so a dictionary that is iterated is an association list with distinct
  keys in insertion order.
\<close>

section \<open>Python floats\<close>

text \<open>
  A finite float is held as the real number it denotes. The sign of a zero is not held:
  \<open>-0.0 == 0.0\<close> in Python, and the program never divides by a zero or prints in a way
  the properties below depend on.
\<close>

datatype pyfloat = Fin real | PInf | NInf | NaN

text \<open>Rounding a real to the nearest integer, a tie to the even one.\<close>

definition round_even :: "real \<Rightarrow> int" where
  "round_even y =
     (let f = \<lfloor>y\<rfloor>; r = y - of_int f
      in if r < 1 / 2 then f else if 1 / 2 < r then f + 1 else if even f then f else f + 1)"

text \<open>
  Magnitudes are counted in units of the least positive float, \<open>2 ^ -1074\<close>. A float below
  \<open>2 ^ 53\<close> units is a whole number of units; from \<open>2 ^ (52 + k)\<close> units up to
  \<open>2 ^ (53 + k)\<close> units the floats are the multiples of \<open>2 ^ k\<close> units, which is the 53-bit
  significand. A magnitude that rounds to \<open>2 ^ 1024\<close> or more overflows.
\<close>

definition least_exp :: nat where
  "least_exp = 1074"

definition scale_bits :: "real \<Rightarrow> nat" where
  "scale_bits y = nat (bitlen \<lfloor>y\<rfloor> - 53)"

definition round_units :: "real \<Rightarrow> int" where
  "round_units y = round_even (y / 2 ^ scale_bits y) * 2 ^ scale_bits y"

definition rnd :: "real \<Rightarrow> pyfloat" where
  "rnd x =
     (let m = round_units (\<bar>x\<bar> * 2 ^ least_exp)
      in if 2 ^ (least_exp + 1024) \<le> m then (if 0 < x then PInf else NInf)
         else Fin (sgn x * of_int m / 2 ^ least_exp))"

text \<open>The operators \<open>-x\<close>, \<open>x + y\<close>, \<open>x - y\<close>, \<open>x * y\<close> and \<open>x / y\<close> on floats. Python raises
  \<open>ZeroDivisionError\<close> on a zero divisor where \<open>fdiv\<close> has the value 0; every division
  of the program has a literal other than zero as its divisor, or stands behind the test
  \<open>map_dist != 0\<close>.\<close>

fun fneg :: "pyfloat \<Rightarrow> pyfloat" where
  "fneg (Fin x) = Fin (- x)"
| "fneg PInf = NInf"
| "fneg NInf = PInf"
| "fneg NaN = NaN"

fun fadd :: "pyfloat \<Rightarrow> pyfloat \<Rightarrow> pyfloat" where
  "fadd (Fin x) (Fin y) = rnd (x + y)"
| "fadd NaN b = NaN"
| "fadd a NaN = NaN"
| "fadd PInf NInf = NaN"
| "fadd NInf PInf = NaN"
| "fadd PInf b = PInf"
| "fadd a PInf = PInf"
| "fadd NInf b = NInf"
| "fadd a NInf = NInf"

definition fsub :: "pyfloat \<Rightarrow> pyfloat \<Rightarrow> pyfloat" where
  "fsub a b = fadd a (fneg b)"

fun fmul :: "pyfloat \<Rightarrow> pyfloat \<Rightarrow> pyfloat" where
  "fmul (Fin x) (Fin y) = rnd (x * y)"
| "fmul NaN b = NaN"
| "fmul a NaN = NaN"
| "fmul (Fin x) PInf = (if x = 0 then NaN else if 0 < x then PInf else NInf)"
| "fmul (Fin x) NInf = (if x = 0 then NaN else if 0 < x then NInf else PInf)"
| "fmul PInf (Fin y) = (if y = 0 then NaN else if 0 < y then PInf else NInf)"
| "fmul NInf (Fin y) = (if y = 0 then NaN else if 0 < y then NInf else PInf)"
| "fmul PInf PInf = PInf"
| "fmul PInf NInf = NInf"
| "fmul NInf PInf = NInf"
| "fmul NInf NInf = PInf"

fun fdiv :: "pyfloat \<Rightarrow> pyfloat \<Rightarrow> pyfloat" where
  "fdiv (Fin x) (Fin y) = rnd (x / y)"
| "fdiv NaN b = NaN"
| "fdiv a NaN = NaN"
| "fdiv (Fin x) PInf = Fin 0"
| "fdiv (Fin x) NInf = Fin 0"
| "fdiv PInf (Fin y) = (if 0 \<le> y then PInf else NInf)"
| "fdiv NInf (Fin y) = (if 0 \<le> y then NInf else PInf)"
| "fdiv PInf b = NaN"
| "fdiv NInf b = NaN"

text \<open>The comparisons \<open>a < b\<close>, \<open>a == b\<close> and \<open>a <= b\<close>: all false when \<open>nan\<close> takes part.\<close>

fun flt :: "pyfloat \<Rightarrow> pyfloat \<Rightarrow> bool" where
  "flt (Fin x) (Fin y) = (x < y)"
| "flt NInf (Fin y) = True"
| "flt (Fin x) PInf = True"
| "flt NInf PInf = True"
| "flt a b = False"

definition feq :: "pyfloat \<Rightarrow> pyfloat \<Rightarrow> bool" where
  "feq a b = (a \<noteq> NaN \<and> a = b)"

definition fle :: "pyfloat \<Rightarrow> pyfloat \<Rightarrow> bool" where
  "fle a b = (flt a b \<or> feq a b)"

text \<open>The built-in \<open>max(a, b)\<close>: the first argument unless the second is greater.\<close>

definition fmax :: "pyfloat \<Rightarrow> pyfloat \<Rightarrow> pyfloat" where
  "fmax a b = (if flt a b then b else a)"

text \<open>The float literals \<open>1609.34\<close> and \<open>0.01\<close> of the source.\<close>

definition lit_1609_34 :: pyfloat where
  "lit_1609_34 = rnd (160934 / 100)"

definition lit_0_01 :: pyfloat where
  "lit_0_01 = rnd (1 / 100)"

text \<open>
  A linear order on floats, for the sorts and the priority queue of the program: the order
  of the values, with \<open>nan\<close> last. On floats other than \<open>nan\<close> it is Python's order. Where
  a \<open>nan\<close> takes part, Python's comparisons are all false, the results of \<open>list.sort\<close> and
  \<open>heapq\<close> depend on the order of their comparisons, and the model does not follow them.
\<close>

fun fkey :: "pyfloat \<Rightarrow> nat \<times> real" where
  "fkey NInf = (0, 0)"
| "fkey (Fin x) = (1, x)"
| "fkey PInf = (2, 0)"
| "fkey NaN = (3, 0)"

lemma fkey_inj: "fkey a = fkey b \<Longrightarrow> a = b"
  by (cases a; cases b) auto

instantiation pyfloat :: linorder
begin

definition less_eq_pyfloat :: "pyfloat \<Rightarrow> pyfloat \<Rightarrow> bool" where
  "less_eq_pyfloat a b = (fkey a \<le> fkey b)"

definition less_pyfloat :: "pyfloat \<Rightarrow> pyfloat \<Rightarrow> bool" where
  "less_pyfloat a b = (fkey a < fkey b)"

instance
proof
  fix x y z :: pyfloat
  show "(x < y) = (x \<le> y \<and> \<not> y \<le> x)"
    unfolding less_pyfloat_def less_eq_pyfloat_def by (rule less_le_not_le)
  show "x \<le> x" unfolding less_eq_pyfloat_def by (rule order_refl)
  show "x \<le> y \<Longrightarrow> y \<le> z \<Longrightarrow> x \<le> z" unfolding less_eq_pyfloat_def by (rule order_trans)
  show "x \<le> y \<Longrightarrow> y \<le> x \<Longrightarrow> x = y"
    unfolding less_eq_pyfloat_def by (rule fkey_inj) (rule antisym)
  show "x \<le> y \<or> y \<le> x" unfolding less_eq_pyfloat_def by (rule linear)
qed

end


section \<open>The graph\<close>

type_synonym city_id = string

record City =
  cid :: city_id
  name :: string
  state :: string
  sea_level_m :: "pyfloat option"

record Edge =
  src :: city_id
  dst :: city_id
  map_dist :: pyfloat
  real_dist :: pyfloat

record Graph =
  cities :: "(city_id \<times> City) list"
  adj :: "(city_id \<times> Edge list) list"

definition Graph_init :: Graph where
  "Graph_init = \<lparr>cities = [], adj = []\<rparr>"

text \<open>\<open>self.cities[c.cid] = c\<close>: an existing key keeps its place, a new key goes last.\<close>

definition add_c :: "Graph \<Rightarrow> City \<Rightarrow> Graph" where
  "add_c g c = g\<lparr>cities := AList.update (cid c) c (cities g)\<rparr>"

text \<open>\<open>self.adj.get(u, [])\<close>\<close>

definition adj_get :: "Graph \<Rightarrow> city_id \<Rightarrow> Edge list" where
  "adj_get g u = (case map_of (adj g) u of None \<Rightarrow> [] | Some es \<Rightarrow> es)"

text \<open>\<open>adj[k].append(e)\<close> on a \<open>defaultdict(list)\<close>: a missing key is created, last, with
  the empty list, then the edge is appended.\<close>

definition adj_append :: "('k \<times> 'v list) list \<Rightarrow> 'k \<Rightarrow> 'v \<Rightarrow> ('k \<times> 'v list) list" where
  "adj_append a k e =
     (case map_of a k of
        None \<Rightarrow> a @ [(k, [e])]
      | Some es \<Rightarrow> AList.update k (es @ [e]) a)"


text \<open>The elevation difference in miles, \<open>0.0\<close> when a sea level is \<open>None\<close>.\<close>

definition delta_miles :: "City \<Rightarrow> City \<Rightarrow> pyfloat" where
  "delta_miles A B =
     (case (sea_level_m A, sea_level_m B) of
        (Some a, Some b) \<Rightarrow> fdiv (fsub b a) lit_1609_34
      | _ \<Rightarrow> Fin 0)"

definition add_bidir_edge :: "Graph \<Rightarrow> city_id \<Rightarrow> city_id \<Rightarrow> pyfloat \<Rightarrow> Graph" where
  "add_bidir_edge g s d md =
     (case (map_of (cities g) s, map_of (cities g) d) of
        (Some A, Some B) \<Rightarrow>
          (let tan_ab = (if \<not> feq md (Fin 0) then fdiv (delta_miles A B) md else Fin 0);
               tan_ba = fneg tan_ab;
               real_ab = fmax (fmul md (fadd (Fin 1) tan_ab)) lit_0_01;
               real_ba = fmax (fmul md (fadd (Fin 1) tan_ba)) lit_0_01
           in g\<lparr>adj := adj_append
                          (adj_append (adj g) s \<lparr>src = s, dst = d, map_dist = md, real_dist = real_ab\<rparr>)
                          d \<lparr>src = d, dst = s, map_dist = md, real_dist = real_ba\<rparr>\<rparr>)
      | _ \<Rightarrow> g)"



text \<open>All edges of the adjacency lists, in the order \<open>for u in self.adj: for e in self.adj[u]\<close>.\<close>

definition all_edges :: "Graph \<Rightarrow> Edge list" where
  "all_edges g = concat (map snd (adj g))"

text \<open>Two cities at sea levels \<open>0.0\<close> and \<open>1.60934\<close> (metres), and two at \<open>0.0\<close> and \<open>inf\<close>.\<close>

definition low_city :: City where
  "low_city = \<lparr>cid = ''A'', name = ''A'', state = '''', sea_level_m = Some (Fin 0)\<rparr>"

definition high_city :: City where
  "high_city = \<lparr>cid = ''B'', name = ''B'', state = '''', sea_level_m = Some (rnd (160934 / 100000))\<rparr>"


definition two_cities :: Graph where
  "two_cities = add_c (add_c Graph_init low_city) high_city"



section \<open>The weather-risk table\<close>

text \<open>
  \<open>str.isspace\<close>, \<open>str.strip\<close> and \<open>str.isdigit\<close> on the characters below U+0100:
  \<open>isspace\<close> holds for the ASCII blanks, the separators U+001C to U+001F, U+0085 and
  U+00A0; \<open>isdigit\<close> holds for the ten ASCII digits and the superscripts U+00B2, U+00B3
  and U+00B9.
\<close>

definition isspace :: "char \<Rightarrow> bool" where
  "isspace c = (c \<in> set [CHR 0x09, CHR 0x0A, CHR 0x0B, CHR 0x0C, CHR 0x0D,
                          CHR 0x1C, CHR 0x1D, CHR 0x1E, CHR 0x1F, CHR 0x20, CHR 0x85, CHR 0xA0])"

definition strip :: "string \<Rightarrow> string" where
  "strip s = rev (dropWhile isspace (rev (dropWhile isspace s)))"

definition isdecimal :: "char \<Rightarrow> bool" where
  "isdecimal c = (c \<in> set ''0123456789'')"

definition isdigit :: "char \<Rightarrow> bool" where
  "isdigit c = (isdecimal c \<or> c \<in> set [CHR 0xB2, CHR 0xB3, CHR 0xB9])"

definition digit_val :: "char \<Rightarrow> nat" where
  "digit_val c = of_char c - 48"

definition lower :: "char \<Rightarrow> char" where
  "lower c =
     (case map_of (zip ''ABCDEFGHIJKLMNOPQRSTUVWXYZ'' ''abcdefghijklmnopqrstuvwxyz'') c of
        None \<Rightarrow> c
      | Some l \<Rightarrow> l)"

text \<open>
  The built-in \<open>float(s)\<close> on a string. The blanks that \<open>float\<close> drops around the literal
  are the ASCII blanks, U+0085 and U+00A0. Then comes an optional sign; then \<open>inf\<close>,
  \<open>infinity\<close> or \<open>nan\<close> in any case, or a decimal literal of ASCII digits with an optional
  fraction and exponent, where single underscores may separate digits. The value of a
  decimal literal is its exact value rounded to the nearest float. \<open>None\<close> is Python's
  \<open>ValueError\<close>.
\<close>

definition float_space :: "char \<Rightarrow> bool" where
  "float_space c = (c \<in> set [CHR 0x09, CHR 0x0A, CHR 0x0B, CHR 0x0C, CHR 0x0D, CHR 0x20,
                              CHR 0x85, CHR 0xA0])"

definition float_strip :: "string \<Rightarrow> string" where
  "float_strip s = rev (dropWhile float_space (rev (dropWhile float_space s)))"

fun more_digits :: "string \<Rightarrow> nat list \<times> string" where
  "more_digits [] = ([], [])"
| "more_digits (c # cs) =
     (if isdecimal c then (case more_digits cs of (ds, r) \<Rightarrow> (digit_val c # ds, r))
      else if c = CHR ''_'' then
        (case cs of
           [] \<Rightarrow> ([], c # cs)
         | d # cs' \<Rightarrow>
             if isdecimal d then (case more_digits cs' of (ds, r) \<Rightarrow> (digit_val d # ds, r))
             else ([], c # cs))
      else ([], c # cs))"

definition digitpart :: "string \<Rightarrow> (nat list \<times> string) option" where
  "digitpart s =
     (case s of
        [] \<Rightarrow> None
      | c # cs \<Rightarrow>
          if isdecimal c then (case more_digits cs of (ds, r) \<Rightarrow> Some (digit_val c # ds, r))
          else None)"

definition digits_nat :: "nat list \<Rightarrow> nat" where
  "digits_nat ds = foldl (\<lambda>a d. 10 * a + d) 0 ds"

definition sign :: "string \<Rightarrow> bool \<times> string" where
  "sign s =
     (case s of
        [] \<Rightarrow> (False, s)
      | c # r \<Rightarrow> if c = CHR ''-'' then (True, r) else if c = CHR ''+'' then (False, r) else (False, s))"

definition decimal_value :: "nat list \<Rightarrow> nat list \<Rightarrow> bool \<Rightarrow> nat \<Rightarrow> real" where
  "decimal_value ip fp eneg e =
     (let m = real (digits_nat (ip @ fp)) / 10 ^ length fp
      in if eneg then m / 10 ^ e else m * 10 ^ e)"

definition exponent :: "nat list \<Rightarrow> nat list \<Rightarrow> string \<Rightarrow> real option" where
  "exponent ip fp r =
     (case r of
        [] \<Rightarrow> Some (decimal_value ip fp False 0)
      | c # r' \<Rightarrow>
          if c = CHR ''e'' \<or> c = CHR ''E'' then
            (case sign r' of
               (eneg, r2) \<Rightarrow>
                 (case digitpart r2 of
                    Some (ed, []) \<Rightarrow> Some (decimal_value ip fp eneg (digits_nat ed))
                  | _ \<Rightarrow> None))
          else None)"

definition decimal :: "string \<Rightarrow> real option" where
  "decimal u =
     (case digitpart u of
        Some (ip, r) \<Rightarrow>
          (case r of
             [] \<Rightarrow> exponent ip [] r
           | c # r' \<Rightarrow>
               if c = CHR ''.'' then
                 (case digitpart r' of
                    Some (fp, r'') \<Rightarrow> exponent ip fp r''
                  | None \<Rightarrow> exponent ip [] r')
               else exponent ip [] r)
      | None \<Rightarrow>
          (case u of
             [] \<Rightarrow> None
           | c # r' \<Rightarrow>
               if c = CHR ''.'' then
                 (case digitpart r' of
                    Some (fp, r'') \<Rightarrow> exponent [] fp r''
                  | None \<Rightarrow> None)
               else None))"

definition py_float :: "string \<Rightarrow> pyfloat option" where
  "py_float s =
     (case sign (float_strip s) of
        (neg, u) \<Rightarrow>
          if map lower u \<in> set [''inf'', ''infinity''] then Some (if neg then NInf else PInf)
          else if map lower u = ''nan'' then Some NaN
          else (case decimal u of
                  None \<Rightarrow> None
                | Some v \<Rightarrow> Some (rnd (if neg then - v else v))))"

text \<open>
  A row of \<open>csv.DictReader\<close> maps a column name to its text; a column that is absent or
  has no value in the row reads as \<open>None\<close>.
\<close>

type_synonym csv_row = "string \<rightharpoonup> string"

record WeatherRisk =
  risk :: "city_id \<rightharpoonup> (string \<rightharpoonup> pyfloat)"
  dates :: "string list"

definition WeatherRisk_init :: WeatherRisk where
  "WeatherRisk_init = \<lparr>risk = Map.empty, dates = []\<rparr>"

text \<open>
  \<open>load\<close> either runs through all rows or stops at the first row whose value raises
  \<open>ValueError\<close>.
\<close>

datatype load_error = ValueError

text \<open>\<open>a or b\<close> on optional strings: \<open>None\<close> and the empty string are false.\<close>

definition or_else :: "string option \<Rightarrow> string option \<Rightarrow> string option" where
  "or_else a b = (case a of None \<Rightarrow> b | Some s \<Rightarrow> if s \<noteq> [] then a else b)"

definition or_empty :: "string option \<Rightarrow> string" where
  "or_empty a = (case a of None \<Rightarrow> [] | Some s \<Rightarrow> s)"

text \<open>The local variables \<open>cid\<close>, \<open>date\<close> and \<open>raw\<close> of the loop body of \<open>load\<close>.\<close>

definition row_cid :: "csv_row \<Rightarrow> string" where
  "row_cid r = strip (or_empty (or_else (or_else (r ''city_id'') (r ''city'')) (r ''id'')))"

definition row_date :: "csv_row \<Rightarrow> string" where
  "row_date r = strip (or_empty (r ''date''))"

definition row_raw :: "csv_row \<Rightarrow> string" where
  "row_raw r = strip (or_empty (r ''risk''))"

text \<open>The \<open>try: val = float(raw)\<close> with its bare \<open>except\<close> branch; the second \<open>float\<close>,
  inside the handler, is not guarded.\<close>

definition risk_value :: "string \<Rightarrow> load_error + pyfloat" where
  "risk_value raw =
     (case py_float raw of
        Some v \<Rightarrow> Inr v
      | None \<Rightarrow>
          (let digits = filter (\<lambda>ch. isdigit ch \<or> ch = CHR ''.'' \<or> ch = CHR ''-'') raw
           in if digits \<noteq> [] then
                (case py_float digits of
                   Some v \<Rightarrow> Inr v
                 | None \<Rightarrow> Inl ValueError)
              else Inr (Fin 0)))"

text \<open>\<open>self.risk.get(c, {})\<close>\<close>

definition risk_get :: "WeatherRisk \<Rightarrow> city_id \<Rightarrow> (string \<rightharpoonup> pyfloat)" where
  "risk_get wr c = (case risk wr c of None \<Rightarrow> Map.empty | Some m \<Rightarrow> m)"

definition load_row :: "WeatherRisk \<Rightarrow> csv_row \<Rightarrow> load_error + WeatherRisk" where
  "load_row wr r =
     (let cid = row_cid r in
      if cid = [] then Inr wr
      else
        (let date = row_date r; raw = row_raw r in
         case risk_value raw of
           Inl e \<Rightarrow> Inl e
         | Inr val \<Rightarrow>
             Inr (wr\<lparr>risk := (risk wr)(cid \<mapsto> (risk_get wr cid)(date \<mapsto> val)),
                     dates := (if date \<noteq> [] \<and> date \<notin> set (dates wr)
                               then dates wr @ [date] else dates wr)\<rparr>)))"

text \<open>The loop over the rows. An exception leaves the loop with the table as the earlier
  rows built it; the final sort of the dates is then not reached.\<close>

fun load_rows :: "WeatherRisk \<Rightarrow> csv_row list \<Rightarrow> (load_error \<times> WeatherRisk) + WeatherRisk" where
  "load_rows wr [] = Inr wr"
| "load_rows wr (r # rs) =
     (case load_row wr r of
        Inl e \<Rightarrow> Inl (e, wr)
      | Inr wr' \<Rightarrow> load_rows wr' rs)"

definition load :: "WeatherRisk \<Rightarrow> csv_row list \<Rightarrow> (load_error \<times> WeatherRisk) + WeatherRisk" where
  "load wr rows =
     (case load_rows wr rows of
        Inl x \<Rightarrow> Inl x
      | Inr wr' \<Rightarrow> Inr (wr'\<lparr>dates := sort (dates wr')\<rparr>))"

text \<open>The table that the loop of \<open>load\<close> leaves, whether it raises or not.\<close>

definition loop_table :: "WeatherRisk \<Rightarrow> csv_row list \<Rightarrow> WeatherRisk" where
  "loop_table wr rows = (case load_rows wr rows of Inl (e, wr') \<Rightarrow> wr' | Inr wr' \<Rightarrow> wr')"










text \<open>Sample rows.\<close>

definition dash_row :: csv_row where
  "dash_row = [''city_id'' \<mapsto> ''A'', ''date'' \<mapsto> ''2024-01-01'', ''risk'' \<mapsto> ''-'']"

definition dotted_row :: csv_row where
  "dotted_row = [''city_id'' \<mapsto> ''A'', ''date'' \<mapsto> ''2024-01-01'', ''risk'' \<mapsto> ''1.2.3'']"








section \<open>The path algorithms\<close>

text \<open>
  A function of this section that returns an \<open>option\<close> returns \<open>None\<close> when the Python
  yields no value: a loop that does not end, or a \<open>KeyError\<close> on a dictionary read. The
  recursion limit of the interpreter is not modelled.
\<close>

subsection \<open>Predecessor maps and \<open>reconstruct\<close>\<close>

text \<open>A predecessor dictionary maps an identifier to an identifier or to Python's \<open>None\<close>.\<close>

type_synonym parent_map = "city_id \<rightharpoonup> city_id option"

text \<open>\<open>parent.get(cur)\<close>\<close>

definition parent_get :: "parent_map \<Rightarrow> city_id \<Rightarrow> city_id option" where
  "parent_get parent cur = (case parent cur of None \<Rightarrow> None | Some p \<Rightarrow> p)"

text \<open>The \<open>while cur is not None\<close> loop of \<open>reconstruct\<close>, from an identifier \<open>cur\<close>.\<close>

partial_function (option) reconstruct_loop ::
  "parent_map \<Rightarrow> city_id \<Rightarrow> city_id \<Rightarrow> city_id list \<Rightarrow> city_id list option" where
  "reconstruct_loop parent start cur path =
     (if cur = start then Some (path @ [cur])
      else (case parent_get parent cur of
              None \<Rightarrow> Some (path @ [cur])
            | Some p \<Rightarrow> reconstruct_loop parent start p (path @ [cur])))"

definition reconstruct :: "parent_map \<Rightarrow> city_id \<Rightarrow> city_id \<Rightarrow> city_id list option" where
  "reconstruct parent start dest =
     (if dest = start then Some [start]
      else if parent dest = None then Some []
      else (case reconstruct_loop parent start dest [] of
              None \<Rightarrow> None
            | Some path \<Rightarrow>
                (let path' = rev path
                 in if path' \<noteq> [] \<and> hd path' = start then Some path' else Some [])))"

subsection \<open>Breadth-first search\<close>

text \<open>
  \<open>bfs_path\<close> and \<open>tree_path_in_adj\<close> run the same loop: the first over \<open>e.dst\<close> for the
  edges \<open>e\<close> of \<open>self.adj.get(u, [])\<close>, the second over the identifiers of \<open>adj.get(u, [])\<close>.
  The loop is written once, over a dictionary of neighbour lists.
\<close>

type_synonym nbr_lists = "(city_id \<times> city_id list) list"

definition nbrs_get :: "nbr_lists \<Rightarrow> city_id \<Rightarrow> city_id list" where
  "nbrs_get a u = (case map_of a u of None \<Rightarrow> [] | Some vs \<Rightarrow> vs)"

definition dst_adj :: "Graph \<Rightarrow> nbr_lists" where
  "dst_adj g = map (\<lambda>(u, es). (u, map dst es)) (adj g)"

type_synonym bfs_state = "city_id list \<times> city_id set \<times> parent_map"

fun bfs_scan :: "city_id \<Rightarrow> city_id list \<Rightarrow> bfs_state \<Rightarrow> bfs_state" where
  "bfs_scan u [] st = st"
| "bfs_scan u (v # vs) (q, visited, parent) =
     (if v \<notin> visited
      then bfs_scan u vs (q @ [v], insert v visited, parent(v \<mapsto> Some u))
      else bfs_scan u vs (q, visited, parent))"

definition nbr_nodes :: "nbr_lists \<Rightarrow> city_id set" where
  "nbr_nodes a = set (concat (map snd a))"

lemma nbrs_get_nodes: "set (nbrs_get a u) \<subseteq> nbr_nodes a"
proof (cases "map_of a u")
  case None
  then show ?thesis by (simp add: nbrs_get_def)
next
  case (Some vs)
  then have "(u, vs) \<in> set a" by (rule map_of_SomeD)
  then have "set vs \<subseteq> nbr_nodes a" by (force simp: nbr_nodes_def)
  with Some show ?thesis by (simp add: nbrs_get_def)
qed

lemma bfs_scan_measure:
  "set vs \<subseteq> V \<Longrightarrow> finite V \<Longrightarrow> bfs_scan u vs (q, visited, parent) = (q', visited', parent') \<Longrightarrow>
     2 * card (V - visited') + length q' \<le> 2 * card (V - visited) + length q"
proof (induction vs arbitrary: q visited parent)
  case Nil
  then show ?case by simp
next
  case (Cons v vs)
  show ?case
  proof (cases "v \<in> visited")
    case True
    with Cons show ?thesis by simp
  next
    case False
    with Cons.prems have s: "bfs_scan u vs (q @ [v], insert v visited, parent(v \<mapsto> Some u))
        = (q', visited', parent')" by simp
    from Cons.prems have "set vs \<subseteq> V" by simp
    from Cons.IH[OF this Cons.prems(2) s]
    have le: "2 * card (V - visited') + length q' \<le> 2 * card (V - insert v visited) + length (q @ [v])" .
    from Cons.prems False have "v \<in> V - visited" by simp
    moreover have "finite (V - visited)" using Cons.prems(2) by simp
    ultimately have "card (V - insert v visited) < card (V - visited)"
      by (metis Diff_insert card_Diff1_less)
    with le show ?thesis by simp
  qed
qed

function bfs_loop :: "nbr_lists \<Rightarrow> city_id \<Rightarrow> bfs_state \<Rightarrow> parent_map" where
  "bfs_loop a dest ([], visited, parent) = parent"
| "bfs_loop a dest (u # q, visited, parent) =
     (if u = dest then parent
      else bfs_loop a dest (bfs_scan u (nbrs_get a u) (q, visited, parent)))"
  by pat_completeness auto
termination
proof (relation "measure (\<lambda>(a, dest, q, visited, parent). 2 * card (nbr_nodes a - visited) + length q)")
  show "wf (measure (\<lambda>(a, dest, q, visited, parent). 2 * card (nbr_nodes a - visited) + length q))"
    by simp
next
  fix a :: nbr_lists and dest u :: city_id and q visited and parent :: parent_map
  obtain q' visited' parent' where s: "bfs_scan u (nbrs_get a u) (q, visited, parent) = (q', visited', parent')"
    by (cases "bfs_scan u (nbrs_get a u) (q, visited, parent)") auto
  have "finite (nbr_nodes a)" by (simp add: nbr_nodes_def)
  from bfs_scan_measure[OF nbrs_get_nodes this s]
  show "((a, dest, bfs_scan u (nbrs_get a u) (q, visited, parent)), a, dest, u # q, visited, parent)
       \<in> measure (\<lambda>(a, dest, q, visited, parent). 2 * card (nbr_nodes a - visited) + length q)"
    using s by simp
qed

text \<open>\<open>q = deque([start]); visited = {start}; parent = {start: None}\<close>\<close>

definition bfs_init :: "city_id \<Rightarrow> bfs_state" where
  "bfs_init start = ([start], {start}, [start \<mapsto> None])"

definition bfs_path :: "Graph \<Rightarrow> city_id \<Rightarrow> city_id \<Rightarrow> city_id list option" where
  "bfs_path g start dest = reconstruct (bfs_loop (dst_adj g) dest (bfs_init start)) start dest"

definition tree_path_in_adj :: "nbr_lists \<Rightarrow> city_id \<Rightarrow> city_id \<Rightarrow> city_id list option" where
  "tree_path_in_adj a start dest = reconstruct (bfs_loop a dest (bfs_init start)) start dest"

subsection \<open>Depth-first search\<close>

text \<open>
  The recursion of \<open>_dfs\<close> runs on an explicit stack of frames, one per active call, the
  innermost first; a frame holds the node \<open>u\<close> of the call and the edges its \<open>for\<close> loop has
  still to scan. The state is \<open>(visited, parent, found)\<close>. A call \<open>_dfs(e.dst)\<close> made when
  \<open>found\<close> is set returns at once; one that reaches \<open>dest\<close> sets \<open>found\<close> and returns; any
  other call opens a frame.
\<close>

type_synonym dfs_state = "city_id set \<times> parent_map \<times> bool"

type_synonym dfs_frame = "city_id \<times> Edge list"

definition frame_nodes :: "Graph \<Rightarrow> dfs_frame list \<Rightarrow> city_id set" where
  "frame_nodes g stack = dst ` set (all_edges g) \<union> dst ` set (concat (map snd stack))"

definition frame_size :: "dfs_frame list \<Rightarrow> nat" where
  "frame_size stack = sum_list (map (\<lambda>(u, es). Suc (length es)) stack)"

lemma adj_get_all_edges: "set (adj_get g u) \<subseteq> set (all_edges g)"
proof (cases "map_of (adj g) u")
  case None
  then show ?thesis by (simp add: adj_get_def)
next
  case (Some es)
  then have "(u, es) \<in> set (adj g)" by (rule map_of_SomeD)
  then have "set es \<subseteq> set (all_edges g)" by (force simp: all_edges_def)
  with Some show ?thesis by (simp add: adj_get_def)
qed

lemma frame_nodes_finite: "finite (frame_nodes g stack)"
  by (simp add: frame_nodes_def)

lemma frame_nodes_pop: "frame_nodes g stack \<subseteq> frame_nodes g ((u, es) # stack)"
  by (auto simp: frame_nodes_def)

lemma frame_nodes_next: "frame_nodes g ((u, es) # stack) \<subseteq> frame_nodes g ((u, e # es) # stack)"
  by (auto simp: frame_nodes_def)

lemma frame_nodes_push:
  "frame_nodes g ((v, adj_get g v) # (u, es) # stack) \<subseteq> frame_nodes g ((u, e # es) # stack)"
  using adj_get_all_edges[of g v] by (auto simp: frame_nodes_def)

lemma frame_nodes_top: "dst e \<in> frame_nodes g ((u, e # es) # stack)"
  by (simp add: frame_nodes_def)

lemma card_diff_mono: "A \<subseteq> B \<Longrightarrow> finite B \<Longrightarrow> card (A - V) \<le> card (B - V)"
  by (rule card_mono) auto

lemma card_diff_insert_less:
  "A \<subseteq> B \<Longrightarrow> finite B \<Longrightarrow> v \<in> B \<Longrightarrow> v \<notin> V \<Longrightarrow> card (A - insert v V) < card (B - V)"
  by (rule psubset_card_mono) auto

function dfs_run :: "Graph \<Rightarrow> city_id \<Rightarrow> dfs_frame list \<Rightarrow> dfs_state \<Rightarrow> dfs_state" where
  "dfs_run g dest [] st = st"
| "dfs_run g dest ((u, []) # stack) st = dfs_run g dest stack st"
| "dfs_run g dest ((u, e # es) # stack) (visited, parent, found) =
     (if dst e \<notin> visited then
        (if found then
           dfs_run g dest ((u, es) # stack) (visited, parent(dst e \<mapsto> Some u), found)
         else if dst e = dest then
           dfs_run g dest ((u, es) # stack) (insert (dst e) visited, parent(dst e \<mapsto> Some u), True)
         else
           dfs_run g dest ((dst e, adj_get g (dst e)) # (u, es) # stack)
             (insert (dst e) visited, parent(dst e \<mapsto> Some u), False))
      else dfs_run g dest ((u, es) # stack) (visited, parent, found))"
  by pat_completeness auto
termination
proof (relation "measures [\<lambda>(g, dest, stack, visited, parent, found). card (frame_nodes g stack - visited),
                           \<lambda>(g, dest, stack, visited, parent, found). frame_size stack]", goal_cases)
  case 1
  show ?case by simp
next
  case (2 g dest u stack st)
  obtain visited parent found where st: "st = (visited, parent, found)" by (cases st) auto
  have "card (frame_nodes g stack - visited) \<le> card (frame_nodes g ((u, []) # stack) - visited)"
    by (rule card_diff_mono[OF frame_nodes_pop frame_nodes_finite])
  then show ?case by (auto simp: st frame_size_def)
next
  case (3 g dest u e es stack visited parent found)
  have "card (frame_nodes g ((u, es) # stack) - visited)
      \<le> card (frame_nodes g ((u, e # es) # stack) - visited)"
    by (rule card_diff_mono[OF frame_nodes_next frame_nodes_finite])
  then show ?case by (auto simp: frame_size_def)
next
  case (4 g dest u e es stack visited parent found)
  have "card (frame_nodes g ((u, es) # stack) - insert (dst e) visited)
      < card (frame_nodes g ((u, e # es) # stack) - visited)"
    using 4 by (intro card_diff_insert_less[OF frame_nodes_next frame_nodes_finite frame_nodes_top]) simp
  then show ?case by simp
next
  case (5 g dest u e es stack visited parent found)
  have "card (frame_nodes g ((dst e, adj_get g (dst e)) # (u, es) # stack) - insert (dst e) visited)
      < card (frame_nodes g ((u, e # es) # stack) - visited)"
    using 5 by (intro card_diff_insert_less[OF frame_nodes_push frame_nodes_finite frame_nodes_top]) simp
  then show ?case by simp
next
  case (6 g dest u e es stack visited parent found)
  have "card (frame_nodes g ((u, es) # stack) - visited)
      \<le> card (frame_nodes g ((u, e # es) # stack) - visited)"
    by (rule card_diff_mono[OF frame_nodes_next frame_nodes_finite])
  then show ?case by (auto simp: frame_size_def)
qed

text \<open>The outermost call \<open>_dfs(start)\<close>, made with \<open>visited = set()\<close>, \<open>parent = {start: None}\<close>
  and \<open>found = [False]\<close>.\<close>

definition dfs_start :: "Graph \<Rightarrow> city_id \<Rightarrow> city_id \<Rightarrow> dfs_state" where
  "dfs_start g start dest =
     (if start = dest then ({start}, [start \<mapsto> None], True)
      else dfs_run g dest [(start, adj_get g start)] ({start}, [start \<mapsto> None], False))"

definition dfs_path :: "Graph \<Rightarrow> city_id \<Rightarrow> city_id \<Rightarrow> city_id list option" where
  "dfs_path g start dest =
     (case dfs_start g start dest of (visited, parent, found) \<Rightarrow> reconstruct parent start dest)"

subsection \<open>Prim's spanning tree\<close>

text \<open>
  The frontier holds tuples \<open>(real_dist, src, dst)\<close>. \<open>heapq\<close> keeps them in a list arranged
  as a binary heap, and \<open>heappop\<close> returns the least item in Python's order of tuples: by
  the first component, then the second, then the third. Two items that compare equal are
  the same tuple, so which items come out, and in which order, does not depend on the
  arrangement of the heap: the model keeps the items in a list and takes out the least.
  This is the behaviour of \<open>heapq\<close> as long as no cost in the frontier is \<open>nan\<close>.
\<close>

type_synonym heap_item = "pyfloat \<times> city_id \<times> city_id"

definition heap_min :: "heap_item list \<Rightarrow> heap_item" where
  "heap_min pq = fold min (tl pq) (hd pq)"

definition heappop :: "heap_item list \<Rightarrow> heap_item \<times> heap_item list" where
  "heappop pq = (heap_min pq, remove1 (heap_min pq) pq)"

definition heappush :: "heap_item list \<Rightarrow> heap_item \<Rightarrow> heap_item list" where
  "heappush pq x = pq @ [x]"

definition heap_item_of :: "Edge \<Rightarrow> heap_item" where
  "heap_item_of e = (real_dist e, src e, dst e)"

text \<open>\<open>for ne in self.adj.get(v, []): if ne.dst not in visited: heappush(...)\<close>\<close>

fun push_edges :: "Edge list \<Rightarrow> city_id set \<Rightarrow> heap_item list \<Rightarrow> heap_item list" where
  "push_edges [] visited pq = pq"
| "push_edges (ne # es) visited pq =
     (if dst ne \<notin> visited then push_edges es visited (heappush pq (heap_item_of ne))
      else push_edges es visited pq)"

type_synonym prim_state = "heap_item list \<times> city_id set \<times> Edge list"

text \<open>One turn of the \<open>while\<close> loop. \<open>self.adj[u]\<close> is read as \<open>self.adj.get(u, [])\<close>: on the
  \<open>defaultdict\<close> the two differ only in that the first creates a missing key with an empty
  list.\<close>

definition prim_step :: "Graph \<Rightarrow> prim_state \<Rightarrow> prim_state" where
  "prim_step g st =
     (case st of (pq, visited, mst) \<Rightarrow>
        (case heappop pq of ((d, u, v), pq') \<Rightarrow>
           if v \<in> visited then (pq', visited, mst)
           else (push_edges (adj_get g v) (insert v visited) pq',
                 insert v visited,
                 (case find (\<lambda>e. dst e = v) (adj_get g u) of
                    None \<Rightarrow> mst
                  | Some e \<Rightarrow> mst @ [e]))))"

definition heap_nodes :: "Graph \<Rightarrow> heap_item list \<Rightarrow> city_id set" where
  "heap_nodes g pq = dst ` set (all_edges g) \<union> (\<lambda>x. snd (snd x)) ` set pq"

lemma fold_min_in: "fold min xs (x :: 'a :: linorder) \<in> set (x # xs)"
  by (induction xs arbitrary: x) (auto simp: min_def)

lemma heap_min_in: "pq \<noteq> [] \<Longrightarrow> heap_min pq \<in> set pq"
  using fold_min_in[of "tl pq" "hd pq"] by (cases pq) (auto simp: heap_min_def)




lemma push_edges_items:
  "set (push_edges es visited pq) \<subseteq> set pq \<union> heap_item_of ` set es"
proof (induction es arbitrary: pq)
  case Nil
  then show ?case by simp
next
  case (Cons ne es)
  show ?case
  proof (cases "dst ne \<in> visited")
    case True
    with Cons.IH[of pq] show ?thesis by auto
  next
    case False
    with Cons.IH[of "heappush pq (heap_item_of ne)"] show ?thesis
      by (auto simp: heappush_def)
  qed
qed

lemma heap_nodes_finite: "finite (heap_nodes g pq)"
  by (simp add: heap_nodes_def)

lemma heap_nodes_mono: "set pq' \<subseteq> set pq \<union> heap_item_of ` set (all_edges g) \<Longrightarrow>
    heap_nodes g pq' \<subseteq> heap_nodes g pq"
proof
  fix v assume sub: "set pq' \<subseteq> set pq \<union> heap_item_of ` set (all_edges g)"
    and v: "v \<in> heap_nodes g pq'"
  show "v \<in> heap_nodes g pq"
  proof (cases "v \<in> dst ` set (all_edges g)")
    case True
    then show ?thesis by (simp add: heap_nodes_def)
  next
    case False
    with v obtain x where x: "x \<in> set pq'" "v = snd (snd x)" by (auto simp: heap_nodes_def)
    from sub x(1) have "x \<in> set pq \<or> x \<in> heap_item_of ` set (all_edges g)" by auto
    then show ?thesis
    proof
      assume "x \<in> set pq"
      with x(2) show ?thesis by (auto simp: heap_nodes_def)
    next
      assume "x \<in> heap_item_of ` set (all_edges g)"
      then obtain e where "e \<in> set (all_edges g)" "x = heap_item_of e" by auto
      with x(2) have "v = dst e" by (simp add: heap_item_of_def)
      with \<open>e \<in> set (all_edges g)\<close> False show ?thesis by simp
    qed
  qed
qed

lemma prim_step_measure:
  assumes "pq \<noteq> []" and "prim_step g (pq, visited, mst) = (pq', visited', mst')"
  shows "card (heap_nodes g pq' - visited') < card (heap_nodes g pq - visited)
       \<or> (card (heap_nodes g pq' - visited') = card (heap_nodes g pq - visited) \<and> length pq' < length pq)"
proof -
  obtain d u v where m: "heap_min pq = (d, u, v)" by (cases "heap_min pq") auto
  from heap_min_in[OF assms(1)] m have inq: "(d, u, v) \<in> set pq" by simp
  then have "snd (snd (d, u, v)) \<in> (\<lambda>x. snd (snd x)) ` set pq" by (rule imageI)
  then have vn: "v \<in> heap_nodes g pq" by (simp add: heap_nodes_def)
  have rem: "set (remove1 (d, u, v) pq) \<subseteq> set pq" by (rule set_remove1_subset)
  show ?thesis
  proof (cases "v \<in> visited")
    case True
    with assms(2) m have e: "pq' = remove1 (d, u, v) pq" "visited' = visited"
      by (simp_all add: prim_step_def heappop_def)
    have "heap_nodes g pq' \<subseteq> heap_nodes g pq"
      by (rule heap_nodes_mono) (use rem e in auto)
    then have "card (heap_nodes g pq' - visited') \<le> card (heap_nodes g pq - visited)"
      unfolding e(2) by (rule card_diff_mono[OF _ heap_nodes_finite])
    moreover have "length pq' < length pq"
    proof -
      have "length (remove1 (d, u, v) pq) = length pq - 1"
        using inq by (simp add: length_remove1)
      moreover have "0 < length pq" using assms(1) by simp
      ultimately show ?thesis unfolding e(1) by linarith
    qed
    ultimately show ?thesis by linarith
  next
    case False
    with assms(2) m have e: "pq' = push_edges (adj_get g v) (insert v visited) (remove1 (d, u, v) pq)"
      "visited' = insert v visited"
      by (auto simp: prim_step_def heappop_def)
    have "set pq' \<subseteq> set (remove1 (d, u, v) pq) \<union> heap_item_of ` set (adj_get g v)"
      unfolding e(1) by (rule push_edges_items)
    also have "\<dots> \<subseteq> set pq \<union> heap_item_of ` set (all_edges g)"
      using rem adj_get_all_edges[of g v] by (intro Un_mono image_mono)
    finally have "heap_nodes g pq' \<subseteq> heap_nodes g pq" by (rule heap_nodes_mono)
    from card_diff_insert_less[OF this heap_nodes_finite vn False]
    show ?thesis by (simp add: e(2))
  qed
qed

function prim_loop :: "Graph \<Rightarrow> prim_state \<Rightarrow> Edge list" where
  "prim_loop g (pq, visited, mst) =
     (if pq \<noteq> [] \<and> card visited < length (cities g)
      then prim_loop g (prim_step g (pq, visited, mst))
      else mst)"
  by pat_completeness auto
termination
proof (relation "measures [\<lambda>(g, pq, visited, mst). card (heap_nodes g pq - visited),
                           \<lambda>(g, pq, visited, mst). length pq]", goal_cases)
  case 1
  show ?case by simp
next
  case (2 g pq visited mst)
  obtain pq' visited' mst' where s: "prim_step g (pq, visited, mst) = (pq', visited', mst')"
    by (cases "prim_step g (pq, visited, mst)") auto
  from 2 have "pq \<noteq> []" by simp
  from prim_step_measure[OF this s] show ?case by (simp add: s)
qed

definition prim_mst_edges :: "Graph \<Rightarrow> city_id \<Rightarrow> Edge list" where
  "prim_mst_edges g start =
     (if map_of (cities g) start = None then []
      else prim_loop g (map heap_item_of (adj_get g start), {start}, []))"

text \<open>The dictionary \<open>mst_adj\<close> of \<open>prim_path\<close> and \<open>kruskal_path\<close>.\<close>

definition mst_adj :: "Edge list \<Rightarrow> nbr_lists" where
  "mst_adj mst = fold (\<lambda>e a. adj_append (adj_append a (src e) (dst e)) (dst e) (src e)) mst []"

definition prim_path :: "Graph \<Rightarrow> city_id \<Rightarrow> city_id \<Rightarrow> city_id list option" where
  "prim_path g start dest = tree_path_in_adj (mst_adj (prim_mst_edges g start)) start dest"

subsection \<open>Kruskal's spanning tree\<close>

text \<open>\<open>tuple(sorted((e.src, e.dst)))\<close>\<close>

definition edge_key :: "Edge \<Rightarrow> city_id \<times> city_id" where
  "edge_key e = (if src e \<le> dst e then (src e, dst e) else (dst e, src e))"

fun dedupe :: "Edge list \<Rightarrow> (city_id \<times> city_id) set \<Rightarrow> Edge list \<Rightarrow> Edge list" where
  "dedupe [] seen edges = edges"
| "dedupe (e # es) seen edges =
     (if edge_key e \<notin> seen then dedupe es (insert (edge_key e) seen) (edges @ [e])
      else dedupe es seen edges)"

text \<open>\<open>find\<close> with path compression: the root of \<open>x\<close> and the dictionary \<open>parent\<close> as the call
  leaves it. \<open>None\<close>: \<open>parent[x]\<close> is missing, or the chain of parents does not end.\<close>

partial_function (option) uf_find ::
  "(city_id \<rightharpoonup> city_id) \<Rightarrow> city_id \<Rightarrow> (city_id \<times> (city_id \<rightharpoonup> city_id)) option" where
  "uf_find parent x =
     (case parent x of
        None \<Rightarrow> None
      | Some p \<Rightarrow>
          if p \<noteq> x
          then Option.bind (uf_find parent p) (\<lambda>(r, parent'). Some (r, parent'(x \<mapsto> r)))
          else Some (p, parent))"

type_synonym uf_state = "(city_id \<rightharpoonup> city_id) \<times> (city_id \<rightharpoonup> nat)"

definition uf_union :: "uf_state \<Rightarrow> city_id \<Rightarrow> city_id \<Rightarrow> uf_state option" where
  "uf_union uf a b =
     (case uf of (parent, rank) \<Rightarrow>
        (case uf_find parent a of
           None \<Rightarrow> None
         | Some (ra, parent1) \<Rightarrow>
             (case uf_find parent1 b of
                None \<Rightarrow> None
              | Some (rb, parent2) \<Rightarrow>
                  if ra \<noteq> rb then
                    (case (rank ra, rank rb) of
                       (Some x, Some y) \<Rightarrow>
                         if x < y then Some (parent2(ra \<mapsto> rb), rank)
                         else if x > y then Some (parent2(rb \<mapsto> ra), rank)
                         else Some (parent2(rb \<mapsto> ra), rank(ra \<mapsto> x + 1))
                     | _ \<Rightarrow> None)
                  else Some (parent2, rank))))"

fun kruskal_loop :: "Edge list \<Rightarrow> uf_state \<Rightarrow> Edge list \<Rightarrow> Edge list option" where
  "kruskal_loop [] uf mst = Some mst"
| "kruskal_loop (e # es) (parent, rank) mst =
     (case uf_find parent (src e) of
        None \<Rightarrow> None
      | Some (rs, parent1) \<Rightarrow>
          (case uf_find parent1 (dst e) of
             None \<Rightarrow> None
           | Some (rd, parent2) \<Rightarrow>
               if rs \<noteq> rd then
                 (case uf_union (parent2, rank) (src e) (dst e) of
                    None \<Rightarrow> None
                  | Some uf' \<Rightarrow> kruskal_loop es uf' (mst @ [e]))
               else kruskal_loop es (parent2, rank) mst))"

text \<open>\<open>for cid in self.cities: parent[cid] = cid; rank[cid] = 0\<close>\<close>

definition uf_init :: "Graph \<Rightarrow> uf_state" where
  "uf_init g = (map_of (map (\<lambda>(c, x). (c, c)) (cities g)), map_of (map (\<lambda>(c, x). (c, 0)) (cities g)))"

definition kruskal_mst_edges :: "Graph \<Rightarrow> Edge list option" where
  "kruskal_mst_edges g =
     kruskal_loop (sort_key real_dist (dedupe (all_edges g) {} [])) (uf_init g) []"

definition kruskal_path :: "Graph \<Rightarrow> city_id \<Rightarrow> city_id \<Rightarrow> city_id list option" where
  "kruskal_path g start dest =
     (case kruskal_mst_edges g of
        None \<Rightarrow> None
      | Some mst \<Rightarrow> tree_path_in_adj (mst_adj mst) start dest)"

subsection \<open>Bellman-Ford\<close>

text \<open>
  The dictionaries \<open>dist\<close> and \<open>pred\<close> have the cities as their keys. A read \<open>dist[c]\<close> of
  an identifier that is no city is the \<open>KeyError\<close> of the source, here \<open>None\<close>.
\<close>

definition is_city :: "Graph \<Rightarrow> city_id \<Rightarrow> bool" where
  "is_city g c = (map_of (cities g) c \<noteq> None)"

type_synonym bf_dist = "city_id \<rightharpoonup> pyfloat"

fun relax_all :: "Edge list \<Rightarrow> bf_dist \<times> parent_map \<times> bool \<Rightarrow> (bf_dist \<times> parent_map \<times> bool) option" where
  "relax_all [] st = Some st"
| "relax_all (e # es) (dists, preds, updated) =
     (case dists (src e) of
        None \<Rightarrow> None
      | Some du \<Rightarrow>
          (case dists (dst e) of
             None \<Rightarrow> None
           | Some dv \<Rightarrow>
               if flt (fadd du (real_dist e)) dv
               then relax_all es (dists(dst e \<mapsto> fadd du (real_dist e)), preds(dst e \<mapsto> Some (src e)), True)
               else relax_all es (dists, preds, updated)))"

fun bf_rounds :: "Edge list \<Rightarrow> nat \<Rightarrow> bf_dist \<times> parent_map \<Rightarrow> (bf_dist \<times> parent_map) option" where
  "bf_rounds es 0 st = Some st"
| "bf_rounds es (Suc n) (dists, preds) =
     (case relax_all es (dists, preds, False) of
        None \<Rightarrow> None
      | Some (dists', preds', updated) \<Rightarrow>
          if \<not> updated then Some (dists', preds') else bf_rounds es n (dists', preds'))"

definition bellman_ford :: "Graph \<Rightarrow> city_id \<Rightarrow> (bf_dist \<times> parent_map) option" where
  "bellman_ford g start =
     (let dists = (\<lambda>c. if is_city g c then Some PInf else None);
          preds = (\<lambda>c. if is_city g c then Some None else None)
      in if \<not> is_city g start then Some (dists, preds)
         else bf_rounds (all_edges g) (length (cities g) - 1) (dists(start \<mapsto> Fin 0), preds))"

text \<open>\<open>dist.get(dest, math.inf) == math.inf\<close>\<close>

definition bellman_path :: "Graph \<Rightarrow> city_id \<Rightarrow> city_id \<Rightarrow> city_id list option" where
  "bellman_path g start dest =
     (case bellman_ford g start of
        None \<Rightarrow> None
      | Some (dists, preds) \<Rightarrow>
          if feq (case dists dest of None \<Rightarrow> PInf | Some x \<Rightarrow> x) PInf then Some []
          else reconstruct preds start dest)"

text \<open>Sample graph: four cities at sea level 0, so that every cost is the map distance;
  roads \<open>S - T\<close> (5), \<open>S - A\<close> (1) and \<open>A - T\<close> (5); \<open>Z\<close> has no road.\<close>

definition plain_city :: "city_id \<Rightarrow> City" where
  "plain_city c = \<lparr>cid = c, name = c, state = '''', sea_level_m = Some (Fin 0)\<rparr>"

definition tri_graph :: Graph where
  "tri_graph =
     add_bidir_edge (add_bidir_edge (add_bidir_edge
       (add_c (add_c (add_c (add_c Graph_init (plain_city ''S'')) (plain_city ''T''))
          (plain_city ''A'')) (plain_city ''Z''))
       ''S'' ''T'' (Fin 5)) ''S'' ''A'' (Fin 1)) ''A'' ''T'' (Fin 5)"


section \<open>Properties of the float model\<close>

subsection \<open>Rounding is monotone and exact on floats\<close>

lemma round_even_bounds: "\<lfloor>y\<rfloor> \<le> round_even y \<and> round_even y \<le> \<lfloor>y\<rfloor> + 1"
  by (simp add: round_even_def Let_def)

lemma round_even_of_int [simp]: "round_even (of_int n) = n"
  by (simp add: round_even_def)

lemma round_even_mono: "x \<le> y \<Longrightarrow> round_even x \<le> round_even y"
proof (cases "\<lfloor>x\<rfloor> < \<lfloor>y\<rfloor>")
  case True
  with round_even_bounds[of x] round_even_bounds[of y] show ?thesis by linarith
next
  case False
  assume "x \<le> y"
  with False have "\<lfloor>x\<rfloor> = \<lfloor>y\<rfloor>" using floor_mono[of x y] by linarith
  with \<open>x \<le> y\<close> show ?thesis by (auto simp: round_even_def Let_def)
qed

lemma round_even_nonneg: "0 \<le> y \<Longrightarrow> 0 \<le> round_even y"
  using round_even_mono[of 0 y] round_even_of_int[of 0] by simp

lemma scale_bits_mono: "x \<le> y \<Longrightarrow> scale_bits x \<le> scale_bits y"
  unfolding scale_bits_def bitlen_def
  by (simp add: floor_mono floorlog_mono nat_mono)

lemma round_units_nonneg: "0 \<le> y \<Longrightarrow> 0 \<le> round_units y"
  by (simp add: round_units_def round_even_nonneg)

lemma round_units_mono:
  assumes "0 \<le> x" and "x \<le> y"
  shows "round_units x \<le> round_units y"
proof (cases "scale_bits x = scale_bits y")
  case True
  from assms(2) have "x / 2 ^ scale_bits y \<le> y / 2 ^ scale_bits y"
    by (simp add: divide_right_mono)
  from round_even_mono[OF this] True show ?thesis
    by (simp add: round_units_def)
next
  case False
  with scale_bits_mono[OF assms(2)] have lt: "scale_bits x < scale_bits y" by simp
  let ?K = "scale_bits y" and ?k = "scale_bits x"
  from lt have K: "0 < ?K" by simp
  have y0: "0 \<le> y" using assms by simp
  \<comment> \<open>the larger argument is at least \<open>2 ^ (K + 52)\<close>\<close>
  from K have bl: "bitlen \<lfloor>y\<rfloor> = int ?K + 53" by (simp add: scale_bits_def)
  then have fy: "0 < \<lfloor>y\<rfloor>" using bitlen_eq_zero_iff[of "\<lfloor>y\<rfloor>"] by linarith
  from bitlen_bounds[OF fy] bl have "(2::int) ^ (?K + 52) \<le> \<lfloor>y\<rfloor>"
    by (simp add: nat_add_distrib add.commute)
  then have "real_of_int (2 ^ (?K + 52)) \<le> y" by (meson le_floor_iff)
  then have ylow: "2 ^ (?K + 52) \<le> y" by simp
  have "(2::real) ^ 52 = 2 ^ (?K + 52) / 2 ^ ?K" by (simp add: power_add)
  also have "\<dots> \<le> y / 2 ^ ?K" using ylow by (simp add: divide_right_mono)
  finally have "round_even (of_int (2 ^ 52)) \<le> round_even (y / 2 ^ ?K)"
    by (intro round_even_mono) simp
  then have "(2::int) ^ 52 * 2 ^ ?K \<le> round_even (y / 2 ^ ?K) * 2 ^ ?K"
    unfolding round_even_of_int by (simp add: mult_right_mono)
  then have big: "(2::int) ^ (?K + 52) \<le> round_units y"
    by (simp add: round_units_def power_add mult.commute)
  \<comment> \<open>the smaller one is below it\<close>
  have "bitlen \<lfloor>x\<rfloor> \<le> int ?k + 53" by (simp add: scale_bits_def)
  with lt have "bitlen \<lfloor>x\<rfloor> \<le> int (?K + 52)" by simp
  then have "\<lfloor>x\<rfloor> < 2 ^ (?K + 52)" by (simp add: bitlen_le_iff_power nat_add_distrib)
  then have "x < of_int (2 ^ (?K + 52))" using floor_less_iff by blast
  then have xup: "x \<le> 2 ^ (?K + 52)" by simp
  from lt obtain j where j: "?K + 52 = ?k + j" using less_imp_add_positive
    by (metis add.assoc add.commute less_imp_le_nat nat_le_iff_add)
  have "x / 2 ^ ?k \<le> 2 ^ (?K + 52) / 2 ^ ?k" using xup by (simp add: divide_right_mono)
  also have "\<dots> = of_int (2 ^ j)" unfolding j by (simp add: power_add)
  finally have "round_even (x / 2 ^ ?k) \<le> round_even (of_int (2 ^ j))"
    by (rule round_even_mono)
  then have "round_even (x / 2 ^ ?k) * 2 ^ ?k \<le> 2 ^ j * 2 ^ ?k"
    unfolding round_even_of_int by (simp add: mult_right_mono)
  then have "round_units x \<le> 2 ^ (?K + 52)"
    unfolding j by (simp add: round_units_def power_add mult.commute)
  with big show ?thesis by linarith
qed

lemma fle_simps [simp]:
  "fle (Fin x) (Fin y) = (x \<le> y)"
  "fle NInf (Fin y)" "fle (Fin x) PInf" "fle NInf PInf" "fle PInf PInf" "fle NInf NInf"
  "\<not> fle NaN b" "\<not> fle a NaN" "\<not> fle PInf (Fin y)" "\<not> fle (Fin x) NInf" "\<not> fle PInf NInf"
  by (cases a; cases b; auto simp: fle_def feq_def)+

lemma fle_refl: "a \<noteq> NaN \<Longrightarrow> fle a a"
  by (cases a) auto

lemma fle_trans: "fle a b \<Longrightarrow> fle b c \<Longrightarrow> fle a c"
  by (cases a; cases b; cases c) auto

lemma rnd_not_NaN [simp]: "rnd x \<noteq> NaN"
  by (simp add: rnd_def Let_def)

lemma round_even_0 [simp]: "round_even 0 = 0"
  using round_even_of_int[of 0] by simp

lemma round_units_0 [simp]: "round_units 0 = 0"
  by (simp add: round_units_def)

lemma rnd_0 [simp]: "rnd 0 = Fin 0"
proof -
  have "\<not> (2::int) ^ (least_exp + 1024) \<le> 0" by (simp add: not_le)
  then show ?thesis by (simp add: rnd_def)
qed

lemma rnd_nonneg:
  assumes "0 \<le> x"
  shows "rnd x = PInf \<or> (\<exists>v. rnd x = Fin v \<and> 0 \<le> v)"
proof (cases "x = 0")
  case True
  then show ?thesis by simp
next
  case False
  with assms have x: "0 < x" by simp
  have "0 \<le> round_units (\<bar>x\<bar> * 2 ^ least_exp)" by (rule round_units_nonneg) simp
  then have "0 \<le> sgn x * real_of_int (round_units (\<bar>x\<bar> * 2 ^ least_exp)) / 2 ^ least_exp"
    using x by simp
  with x show ?thesis unfolding rnd_def Let_def by (simp only: if_True split: if_splits) blast
qed

lemma rnd_neg: "rnd (- x) = fneg (rnd x)"
  by (auto simp: rnd_def Let_def sgn_if)

lemma rnd_mono_nonneg:
  assumes "0 \<le> x" and "x \<le> y"
  shows "fle (rnd x) (rnd y)"
proof (cases "x = 0")
  case True
  with rnd_nonneg[of y] assms show ?thesis by auto
next
  case False
  with assms have x: "0 < x" and y: "0 < y" by auto
  define mx where "mx = round_units (\<bar>x\<bar> * 2 ^ least_exp)"
  define my where "my = round_units (\<bar>y\<bar> * 2 ^ least_exp)"
  define B :: int where "B = 2 ^ (least_exp + 1024)"
  define U :: real where "U = 2 ^ least_exp"
  have U: "0 < U" by (simp add: U_def)
  have "\<bar>x\<bar> * 2 ^ least_exp \<le> \<bar>y\<bar> * 2 ^ least_exp" using assms by (simp add: mult_right_mono)
  moreover have "0 \<le> \<bar>x\<bar> * (2::real) ^ least_exp" by simp
  ultimately have m: "mx \<le> my" unfolding mx_def my_def by (intro round_units_mono)
  have rx: "rnd x = (if B \<le> mx then PInf else Fin (of_int mx / U))"
    using x by (simp add: rnd_def mx_def B_def U_def Let_def)
  have ry: "rnd y = (if B \<le> my then PInf else Fin (of_int my / U))"
    using y by (simp add: rnd_def my_def B_def U_def Let_def)
  show ?thesis unfolding rx ry using m U by (auto simp: divide_right_mono)
qed

lemma fle_fneg: "fle a b \<Longrightarrow> fle (fneg b) (fneg a)"
  by (cases a; cases b) auto

lemma fneg_fneg [simp]: "fneg (fneg a) = a"
  by (cases a) auto

lemma rnd_mono: "x \<le> y \<Longrightarrow> fle (rnd x) (rnd y)"
proof -
  assume le: "x \<le> y"
  consider "0 \<le> x" | "y \<le> 0" | "x < 0" "0 < y" by linarith
  then show ?thesis
  proof cases
    case 1
    with le show ?thesis by (intro rnd_mono_nonneg)
  next
    case 2
    with le have "fle (rnd (- y)) (rnd (- x))" by (intro rnd_mono_nonneg) auto
    from fle_fneg[OF this] show ?thesis by (simp add: rnd_neg)
  next
    case 3
    from rnd_nonneg[of y] 3 have y: "fle (Fin 0) (rnd y)" by auto
    from rnd_nonneg[of "- x"] 3 have "fle (Fin 0) (rnd (- x))" by auto
    from fle_fneg[OF this] have "fle (rnd x) (Fin 0)" by (simp add: rnd_neg)
    from fle_trans[OF this y] show ?thesis .
  qed
qed

lemma rnd_dyadic:
  assumes n: "\<bar>n\<bar> < 2 ^ 53" and j: "j \<le> least_exp"
  shows "rnd (of_int n / 2 ^ j) = Fin (of_int n / 2 ^ j)"
proof (cases "n = 0")
  case True
  then show ?thesis by simp
next
  case False
  let ?x = "real_of_int n / 2 ^ j"
  let ?i = "least_exp - j"
  let ?y = "\<bar>?x\<bar> * 2 ^ least_exp"
  have p: "(2::real) ^ least_exp = 2 ^ j * 2 ^ ?i" using j by (simp flip: power_add)
  have y: "?y = of_int (\<bar>n\<bar> * 2 ^ ?i)" unfolding p by (simp add: abs_mult)
  have pos: "0 < \<bar>n\<bar>" using False by simp
  have bl: "bitlen \<bar>n\<bar> \<le> 53" using n by (simp add: bitlen_le_iff_power)
  define k where "k = scale_bits ?y"
  have "k = nat (bitlen \<bar>n\<bar> + int ?i - 53)"
    unfolding k_def y scale_bits_def floor_of_int bitlen_pow2[OF pos] ..
  with bl have k: "k \<le> ?i" by simp
  then obtain l where l: "?i = k + l" using le_Suc_ex by blast
  have "real_of_int (\<bar>n\<bar> * 2 ^ ?i) / 2 ^ k = of_int (\<bar>n\<bar> * 2 ^ l)"
    unfolding l by (simp add: power_add)
  then have "round_even (?y / 2 ^ k) = \<bar>n\<bar> * 2 ^ l"
    unfolding y by (simp only: round_even_of_int)
  then have "round_units ?y = \<bar>n\<bar> * 2 ^ l * 2 ^ k"
    unfolding round_units_def k_def by simp
  also have "\<dots> = \<bar>n\<bar> * 2 ^ ?i" unfolding l by (simp add: power_add mult.commute)
  finally have ru: "round_units ?y = \<bar>n\<bar> * 2 ^ ?i" .
  have "\<bar>n\<bar> * 2 ^ ?i < 2 ^ 53 * 2 ^ least_exp"
    using n by (intro mult_less_le_imp_less) (auto intro: power_increasing)
  also have "\<dots> \<le> (2::int) ^ (least_exp + 1024)"
    unfolding power_add by (subst mult.commute) (intro mult_left_mono, simp_all)
  finally have small: "\<not> 2 ^ (least_exp + 1024) \<le> \<bar>n\<bar> * 2 ^ ?i" by simp
  have "real_of_int (\<bar>n\<bar> * 2 ^ ?i) / 2 ^ least_exp = \<bar>?x\<bar>"
    unfolding y[symmetric] by simp
  then have "sgn ?x * real_of_int (\<bar>n\<bar> * 2 ^ ?i) / 2 ^ least_exp = sgn ?x * \<bar>?x\<bar>"
    by (metis times_divide_eq_right)
  also have "\<dots> = ?x" by (rule sgn_mult_abs)
  finally show ?thesis unfolding rnd_def Let_def ru using small by (simp only: if_False)
qed

lemma rnd_int: "\<bar>n\<bar> < 2 ^ 53 \<Longrightarrow> rnd (of_int n) = Fin (of_int n)"
  using rnd_dyadic[of n 0] by simp

lemma rnd_between:
  assumes "a \<le> x" and "x \<le> b" and "rnd a = Fin a" and "rnd b = Fin b"
  shows "\<exists>v. rnd x = Fin v \<and> a \<le> v \<and> v \<le> b"
  using rnd_mono[OF assms(1)] rnd_mono[OF assms(2)] assms(3,4)
  by (cases "rnd x") auto

lemma rnd_numeral: "(numeral n :: int) < 2 ^ 53 \<Longrightarrow> rnd (numeral n) = Fin (numeral n)"
  using rnd_int[of "numeral n"] by simp

lemma rnd_1 [simp]: "rnd 1 = Fin 1"
  using rnd_int[of 1] by simp

subsection \<open>The order of floats\<close>





lemma not_flt_fle: "a \<noteq> NaN \<Longrightarrow> b \<noteq> NaN \<Longrightarrow> \<not> flt a b \<Longrightarrow> fle b a"
  by (cases a; cases b) auto

subsection \<open>Bounds for float results\<close>

lemma rnd_range:
  assumes "of_int a / 2 ^ i \<le> x" and "x \<le> of_int b / 2 ^ j"
    and "\<bar>a\<bar> < 2 ^ 53" and "\<bar>b\<bar> < 2 ^ 53" and "i \<le> least_exp" and "j \<le> least_exp"
  shows "\<exists>v. rnd x = Fin v \<and> of_int a / 2 ^ i \<le> v \<and> v \<le> of_int b / 2 ^ j"
  using rnd_between[OF assms(1,2) rnd_dyadic[OF assms(3,5)] rnd_dyadic[OF assms(4,6)]] .

lemma lit_1609_34_range: "\<exists>l. lit_1609_34 = Fin l \<and> 1024 \<le> l \<and> l \<le> 2048"
  using rnd_range[of 1024 0 "160934 / 100" 2048 0] by (simp add: lit_1609_34_def least_exp_def)

lemma lit_0_01_range: "\<exists>c. lit_0_01 = Fin c \<and> 1 / 128 \<le> c \<and> c \<le> 1 / 64"
  using rnd_range[of 1 7 "1 / 100" 1 6] by (simp add: lit_0_01_def least_exp_def)

lemma fle_rnd_PInf [simp]: "fle (rnd x) PInf"
  by (cases "rnd x") (auto dest: rnd_not_NaN[THEN notE])

lemma fle_NInf_rnd [simp]: "fle NInf (rnd x)"
  by (cases "rnd x") (auto dest: rnd_not_NaN[THEN notE])





subsection \<open>Directional costs\<close>



lemma set_all_edges_adj_append:
  "set (all_edges (g\<lparr>adj := adj_append a k e\<rparr>)) = insert e (set (all_edges (g\<lparr>adj := a\<rparr>)))"
proof (cases "map_of a k")
  case None
  then show ?thesis by (auto simp: adj_append_def all_edges_def)
next
  case (Some es)
  then have "(\<Union>x\<in>set (AList.update k (es @ [e]) a). set (snd x)) = insert e (\<Union>x\<in>set a. set (snd x))"
    by (induction a) (auto split: if_splits)
  with Some show ?thesis by (simp add: adj_append_def all_edges_def)
qed










subsection \<open>Self-loops\<close>

text \<open>
  Claim C6, as the code has it. \<open>add_bidir_edge\<close> has no guard against equal endpoints:
  called with different identifiers on a graph free of self-loops it leaves the graph free
  of self-loops.
\<close>

theorem add_bidir_edge_no_self_loop:
  assumes "s \<noteq> d" and "\<forall>e \<in> set (all_edges g). src e \<noteq> dst e"
  shows "\<forall>e \<in> set (all_edges (add_bidir_edge g s d md)). src e \<noteq> dst e"
  using assms
  by (auto simp: add_bidir_edge_def set_all_edges_adj_append Let_def split: option.splits)

theorem add_bidir_edge_no_self_loop_witness:
  "''A'' \<noteq> ''B'' \<and> all_edges two_cities = []
   \<and> map (\<lambda>e. (src e, dst e)) (all_edges (add_bidir_edge two_cities ''A'' ''B'' (Fin 10)))
       = [(''A'', ''B''), (''B'', ''A'')]
   \<and> list_all (\<lambda>e. src e \<noteq> dst e) (all_edges (add_bidir_edge two_cities ''A'' ''B'' (Fin 10)))"
proof -
  have a: "''A'' \<noteq> ''B''" by simp
  have e: "all_edges two_cities = []"
    by (simp add: all_edges_def two_cities_def add_c_def Graph_init_def)
  then have b: "\<forall>e \<in> set (all_edges two_cities). src e \<noteq> dst e" by simp
  have c: "map (\<lambda>e. (src e, dst e)) (all_edges (add_bidir_edge two_cities ''A'' ''B'' (Fin 10)))
       = [(''A'', ''B''), (''B'', ''A'')]"
    by (simp add: two_cities_def add_c_def Graph_init_def low_city_def high_city_def
      add_bidir_edge_def all_edges_def adj_append_def Let_def)
  show ?thesis
    using add_bidir_edge_no_self_loop[OF a b, of "Fin 10"] a e c by (simp add: list_all_iff)
qed

text \<open>
  Called with the same identifier for both endpoints, on a graph that holds that city,
  \<open>add_bidir_edge\<close> appends two edges from the city to itself.
\<close>

theorem add_bidir_edge_self_loop_counterexample:
  "map_of (cities two_cities) ''A'' = Some low_city
   \<and> map (\<lambda>e. (src e, dst e)) (adj_get (add_bidir_edge two_cities ''A'' ''A'' (Fin 1)) ''A'')
       = [(''A'', ''A''), (''A'', ''A'')]"
  by (simp add: two_cities_def add_c_def Graph_init_def low_city_def high_city_def
      add_bidir_edge_def adj_get_def adj_append_def Let_def)


section \<open>Properties of the weather-risk table\<close>

lemmas float_defs = py_float_def decimal_def exponent_def decimal_value_def sign_def digits_nat_def
  digitpart_def digit_val_def lower_def isdigit_def isdecimal_def strip_def isspace_def
  float_strip_def float_space_def rnd_numeral


lemma risk_value_dash: "risk_value ''-'' = Inl ValueError"
  by (simp add: risk_value_def float_defs)

lemma risk_value_dotted: "risk_value ''1.2.3'' = Inl ValueError"
  by (simp add: risk_value_def float_defs)

text \<open>
  Claim C5 at a failing input. A row whose risk text is \<open>-\<close> (or \<open>1.2.3\<close>) is not a number;
  what is left after dropping all characters but digits, \<open>.\<close> and \<open>-\<close> is the same text,
  still not a number, and the second \<open>float\<close> raises \<open>ValueError\<close> out of \<open>load\<close>: no value
  is stored for the row and the rows after it are not read.
\<close>

theorem load_raises_on_unparseable_risk:
  "load WeatherRisk_init [dash_row] = Inl (ValueError, WeatherRisk_init)
   \<and> load WeatherRisk_init [dotted_row] = Inl (ValueError, WeatherRisk_init)"
  by (simp add: load_def load_row_def row_cid_def row_date_def row_raw_def or_else_def or_empty_def
      dash_row_def dotted_row_def strip_def isspace_def risk_value_dash risk_value_dotted)

subsection \<open>The best date\<close>























subsection \<open>The empty date\<close>




lemma loop_table_Nil [simp]: "loop_table wr [] = wr"
  by (simp add: loop_table_def)










section \<open>The path algorithms on the sample graph\<close>

lemma fdiv_zero_lit: "fdiv (Fin 0) lit_1609_34 = Fin 0"
proof -
  from lit_1609_34_range obtain l where l: "lit_1609_34 = Fin l" by auto
  show ?thesis unfolding l by simp
qed

lemma fmax_lit: "1 / 64 \<le> x \<Longrightarrow> fmax (Fin x) lit_0_01 = Fin x"
proof -
  assume x: "1 / 64 \<le> x"
  from lit_0_01_range obtain c where c: "lit_0_01 = Fin c" "c \<le> 1 / 64" by auto
  show ?thesis unfolding c(1) using c(2) x by (simp add: fmax_def)
qed

lemma tri_adj: "adj tri_graph =
   [(''S'', [\<lparr>src = ''S'', dst = ''T'', map_dist = Fin 5, real_dist = Fin 5\<rparr>,
             \<lparr>src = ''S'', dst = ''A'', map_dist = Fin 1, real_dist = Fin 1\<rparr>]),
    (''T'', [\<lparr>src = ''T'', dst = ''S'', map_dist = Fin 5, real_dist = Fin 5\<rparr>,
             \<lparr>src = ''T'', dst = ''A'', map_dist = Fin 5, real_dist = Fin 5\<rparr>]),
    (''A'', [\<lparr>src = ''A'', dst = ''S'', map_dist = Fin 1, real_dist = Fin 1\<rparr>,
             \<lparr>src = ''A'', dst = ''T'', map_dist = Fin 5, real_dist = Fin 5\<rparr>])]"
  by (simp add: tri_graph_def add_bidir_edge_def add_c_def Graph_init_def plain_city_def
      adj_append_def delta_miles_def Let_def fsub_def feq_def fdiv_zero_lit fmax_lit rnd_numeral)

lemma tri_cities: "cities tri_graph =
   [(''S'', plain_city ''S''), (''T'', plain_city ''T''), (''A'', plain_city ''A''),
    (''Z'', plain_city ''Z'')]"
  by (simp add: tri_graph_def add_bidir_edge_def add_c_def Graph_init_def plain_city_def
      adj_append_def delta_miles_def Let_def)

lemmas path_defs = bfs_init_def nbrs_get_def reconstruct_def reconstruct_loop.simps parent_get_def
  adj_get_def dst_adj_def

lemmas order_defs = less_eq_pyfloat_def less_pyfloat_def

lemma prim_tri: "prim_mst_edges tri_graph ''S'' =
   [\<lparr>src = ''S'', dst = ''A'', map_dist = Fin 1, real_dist = Fin 1\<rparr>,
    \<lparr>src = ''A'', dst = ''T'', map_dist = Fin 5, real_dist = Fin 5\<rparr>]"
  by (simp add: prim_mst_edges_def tri_adj tri_cities adj_get_def prim_step_def heappop_def
      heap_min_def heappush_def heap_item_of_def order_defs)

lemma prim_path_tri: "prim_path tri_graph ''S'' ''T'' = Some [''S'', ''A'', ''T'']"
  by (simp add: prim_path_def prim_tri mst_adj_def adj_append_def tree_path_in_adj_def path_defs)

lemma tri_edges_sorted: "sort_key real_dist (dedupe (all_edges tri_graph) {} []) =
   [\<lparr>src = ''S'', dst = ''A'', map_dist = Fin 1, real_dist = Fin 1\<rparr>,
    \<lparr>src = ''S'', dst = ''T'', map_dist = Fin 5, real_dist = Fin 5\<rparr>,
    \<lparr>src = ''T'', dst = ''A'', map_dist = Fin 5, real_dist = Fin 5\<rparr>]"
  by (simp add: all_edges_def tri_adj edge_key_def order_defs)

lemma krus_tri: "kruskal_mst_edges tri_graph = Some
   [\<lparr>src = ''S'', dst = ''A'', map_dist = Fin 1, real_dist = Fin 1\<rparr>,
    \<lparr>src = ''S'', dst = ''T'', map_dist = Fin 5, real_dist = Fin 5\<rparr>]"
  unfolding kruskal_mst_edges_def tri_edges_sorted
  by (simp add: uf_init_def tri_cities uf_find.simps uf_union_def)

lemma bellman_tri: "bellman_path tri_graph ''S'' ''T'' = Some [''S'', ''T'']"
  by (simp add: bellman_path_def bellman_ford_def all_edges_def tri_adj tri_cities is_city_def
      reconstruct_def reconstruct_loop.simps parent_get_def feq_def rnd_numeral)

lemma bellman_tri_Z: "bellman_path tri_graph ''S'' ''Z'' = Some []"
  by (simp add: bellman_path_def bellman_ford_def all_edges_def tri_adj tri_cities is_city_def
      reconstruct_def reconstruct_loop.simps parent_get_def feq_def rnd_numeral)

lemma bfs_tri: "bfs_path tri_graph ''S'' ''T'' = Some [''S'', ''T'']"
  by (simp add: bfs_path_def tri_adj path_defs)

lemma dfs_tri: "dfs_path tri_graph ''S'' ''T'' = Some [''S'', ''T'']"
  by (simp add: dfs_path_def dfs_start_def tri_adj path_defs)

lemma kruskal_path_tri: "kruskal_path tri_graph ''S'' ''T'' = Some [''S'', ''T'']"
  by (simp add: kruskal_path_def krus_tri mst_adj_def adj_append_def tree_path_in_adj_def path_defs)

section \<open>Properties of Prim's frontier\<close>






end
